theory Spec2Isabelle
  imports Main
begin

section \<open>Values, exceptions and dictionaries\<close>

text \<open>
  The exceptions that \<open>conf.py\<close> raises itself (\<open>UnknownFileType\<close>,
  \<open>NoConfigFileFound\<close>, \<open>IOError\<close>) carry their message; the others are the
  built-in ones raised by \<open>open\<close>, \<open>int\<close> and subscripting, and \<open>ParseError\<close>
  stands for whatever a format library raises on malformed input. \<open>IOError\<close> is the
  class \<open>OSError\<close> under its other name.
\<close>

datatype exn =
    UnknownFileType string
  | NoConfigFileFound string
  | IOError string
  | FileNotFoundError
  | NotADirectoryError
  | IsADirectoryError
  | PermissionError
  | ParseError string
  | ValueError
  | KeyError
  | IndexError
  | TypeError

text \<open>\<open>isinstance(e, OSError)\<close>.\<close>

fun is_oserror :: "exn \<Rightarrow> bool" where
  "is_oserror (IOError msg) = True"
| "is_oserror FileNotFoundError = True"
| "is_oserror NotADirectoryError = True"
| "is_oserror IsADirectoryError = True"
| "is_oserror PermissionError = True"
| "is_oserror e = False"

text \<open>
  Configuration values. A dictionary is an insertion-ordered list of pairs with string
  keys: a path segment is a \<open>str\<close>, which is never equal to a key of another type, so
  other keys cannot be reached by \<open>get_recursive\<close> and are left out.
\<close>

datatype pyval =
    VNone
  | VBool bool
  | VInt int
  | VStr string
  | VList "pyval list"
  | VDict "(string \<times> pyval) list"

type_synonym pydict = "(string \<times> pyval) list"

text \<open>\<open>d[k] = v\<close>: an existing key keeps its place, a new key goes to the end.\<close>

fun dict_setitem :: "pydict \<Rightarrow> string \<Rightarrow> pyval \<Rightarrow> pydict" where
  "dict_setitem [] k v = [(k, v)]"
| "dict_setitem ((k', v') # d) k v =
     (if k' = k then (k, v) # d else (k', v') # dict_setitem d k v)"

text \<open>\<open>d.update(m)\<close>: every item of \<open>m\<close>, in order, is assigned into \<open>d\<close>.\<close>

fun dict_update :: "pydict \<Rightarrow> pydict \<Rightarrow> pydict" where
  "dict_update d [] = d"
| "dict_update d ((k, v) # m) = dict_update (dict_setitem d k v) m"

definition dict_contains :: "pydict \<Rightarrow> string \<Rightarrow> bool" where
  "dict_contains d k = (map_of d k \<noteq> None)"

section \<open>Config.get and Config.get\_recursive\<close>

definition get_conf :: "pydict \<Rightarrow> string \<Rightarrow> pyval \<Rightarrow> pyval" where
  "get_conf self name fallback =
     (if dict_contains self name then the (map_of self name) else fallback)"

subsection \<open>The built-in \<open>int\<close> on a string\<close>

text \<open>
  Characters are code points below 256. \<open>int(s)\<close> strips white space at both ends
  (the code points 9 to 13, 32, 133 and 160), takes an optional sign, and then needs
  decimal digits, where a single underscore may stand between two digits. It raises
  \<open>ValueError\<close> on everything else, and also when there are more digit characters than
  \<open>sys.get_int_max_str_digits()\<close>, 4300 unless the interpreter is configured otherwise.
\<close>

definition is_space :: "char \<Rightarrow> bool" where
  "is_space c = ((of_char c :: nat) \<in> {9, 10, 11, 12, 13, 32, 133, 160})"

definition int_max_str_digits :: nat where
  "int_max_str_digits = 4300"

definition is_digit :: "char \<Rightarrow> bool" where
  "is_digit c = (48 \<le> (of_char c :: nat) \<and> (of_char c :: nat) \<le> 57)"

definition digit_value :: "char \<Rightarrow> nat" where
  "digit_value c = (of_char c :: nat) - 48"

definition strip :: "string \<Rightarrow> string" where
  "strip s = rev (dropWhile is_space (rev (dropWhile is_space s)))"

fun scan_digits :: "string \<Rightarrow> nat \<Rightarrow> bool \<Rightarrow> nat option" where
  "scan_digits [] acc prev_us = (if prev_us then None else Some acc)"
| "scan_digits (c # cs) acc prev_us =
     (if c = CHR ''_'' then (if prev_us then None else scan_digits cs acc True)
      else if is_digit c then scan_digits cs (10 * acc + digit_value c) False
      else None)"

definition digits_body :: "string \<Rightarrow> nat option" where
  "digits_body s =
     (case s of [] \<Rightarrow> None
      | c # cs \<Rightarrow>
          if c = CHR ''_'' then None
          else if length (filter is_digit s) > int_max_str_digits then None
          else scan_digits s 0 False)"

definition py_int :: "string \<Rightarrow> exn + int" where
  "py_int s =
     (case strip s of
        [] \<Rightarrow> Inl ValueError
      | c # cs \<Rightarrow>
          if c = CHR ''-'' then
            (case digits_body cs of None \<Rightarrow> Inl ValueError | Some n \<Rightarrow> Inr (- int n))
          else if c = CHR ''+'' then
            (case digits_body cs of None \<Rightarrow> Inl ValueError | Some n \<Rightarrow> Inr (int n))
          else
            (case digits_body (c # cs) of None \<Rightarrow> Inl ValueError | Some n \<Rightarrow> Inr (int n)))"

subsection \<open>Subscripting\<close>

text \<open>
  After line 104 the loop variable \<open>path\<close> is an \<open>int\<close> when the node is a list and
  still a \<open>str\<close> otherwise.
\<close>

datatype pykey = KStr string | KInt int

text \<open>
  \<open>data[path]\<close>: a dictionary raises \<open>KeyError\<close> on a missing key; a list takes an
  index \<open>i\<close> with \<open>-len \<le> i < len\<close>, a negative one counting from the end, raises
  \<open>IndexError\<close> outside that range and \<open>TypeError\<close> on a string; nothing else is
  subscriptable by the loop (it has returned before).
\<close>

fun getitem :: "pyval \<Rightarrow> pykey \<Rightarrow> exn + pyval" where
  "getitem (VDict d) (KStr k) =
     (case map_of d k of None \<Rightarrow> Inl KeyError | Some v \<Rightarrow> Inr v)"
| "getitem (VDict d) (KInt i) = Inl KeyError"
| "getitem (VList xs) (KInt i) =
     (let n = int (length xs); j = (if i < 0 then i + n else i)
      in if 0 \<le> j \<and> j < n then Inr (xs ! nat j) else Inl IndexError)"
| "getitem (VList xs) (KStr k) = Inl TypeError"
| "getitem v k = Inl TypeError"

fun is_dict :: "pyval \<Rightarrow> bool" where
  "is_dict (VDict d) = True"
| "is_dict v = False"

fun is_list :: "pyval \<Rightarrow> bool" where
  "is_list (VList xs) = True"
| "is_list v = False"

fun contains :: "pyval \<Rightarrow> string \<Rightarrow> bool" where
  "contains (VDict d) k = dict_contains d k"
| "contains v k = False"

text \<open>
  One pass through the body of the \<open>for\<close> loop (lines 98 to 110): \<open>None\<close> is
  \<open>return fallback\<close>, \<open>Some child\<close> is the new value of \<open>data\<close>. Both \<open>try\<close> blocks
  catch every exception and return the fallback.
\<close>

definition descend :: "pyval \<Rightarrow> string \<Rightarrow> pyval option" where
  "descend data path =
     (if \<not> (is_dict data \<or> is_list data) then None
      else if is_dict data \<and> \<not> contains data path then None
      else
        (case (if is_list data
               then (case py_int path of Inl e \<Rightarrow> None | Inr i \<Rightarrow> Some (KInt i))
               else Some (KStr path)) of
           None \<Rightarrow> None
         | Some key \<Rightarrow>
             (case getitem data key of Inl e \<Rightarrow> None | Inr child \<Rightarrow> Some child)))"

text \<open>
  The loop, started at any node. The result is a sum so that an exception leaving the
  function would be a value \<open>Inl\<close>.
\<close>

fun get_recursive_from :: "pyval \<Rightarrow> string list \<Rightarrow> pyval \<Rightarrow> exn + pyval" where
  "get_recursive_from data [] fallback = Inr data"
| "get_recursive_from data (path # setting) fallback =
     (case descend data path of
        None \<Rightarrow> Inr fallback
      | Some child \<Rightarrow> get_recursive_from child setting fallback)"

definition get_recursive :: "pydict \<Rightarrow> string list \<Rightarrow> pyval \<Rightarrow> exn + pyval" where
  "get_recursive self setting fallback = get_recursive_from (VDict self) setting fallback"

text \<open>
  The value of \<open>data\<close> after the loop has consumed the given segments without
  returning, used to speak about a failure at a later step.
\<close>

fun reach :: "pyval \<Rightarrow> string list \<Rightarrow> pyval option" where
  "reach data [] = Some data"
| "reach data (path # setting) =
     (case descend data path of None \<Rightarrow> None | Some child \<Rightarrow> reach child setting)"

section \<open>The file system and the format libraries\<close>

text \<open>
  What the operating system finds at a path: a readable file with its text, a directory
  or a file that may not be read; or the look-up fails because nothing is there, because
  a component of the path is not a directory, because a directory may not be searched,
  or for another reason given by its message.
\<close>

datatype fsnode = RegularFile string | Directory | NoAccess

datatype errno = ENOENT | ENOTDIR | EACCES | EOTHER string

fun os_error :: "errno \<Rightarrow> exn" where
  "os_error ENOENT = FileNotFoundError"
| "os_error ENOTDIR = NotADirectoryError"
| "os_error EACCES = PermissionError"
| "os_error (EOTHER msg) = IOError msg"

text \<open>
  The format libraries are outside the repository and are taken as parameters: each
  \<open>load\<close> turns the text of a file into a mapping or raises (the annotation of
  \<open>from_file\<close> says \<open>Mapping\<close>); \<open>ini_parse\<close> gives the sections of an INI text in
  the order of \<open>config.sections()\<close>, each with the items of \<open>dict(config[section])\<close>;
  \<open>dotenv_values\<close> is given the path (or \<open>None\<close>) and reads by itself.
\<close>

record world =
  fs :: "string \<Rightarrow> errno + fsnode"
  json_load :: "string \<Rightarrow> exn + pydict"
  toml_load :: "string \<Rightarrow> exn + pydict"
  yaml_load :: "string \<Rightarrow> exn + pydict"
  ini_parse :: "string \<Rightarrow> exn + (string \<times> (string \<times> string) list) list"
  dotenv_values :: "string option \<Rightarrow> exn + pydict"

text \<open>
  A path with an embedded null character never reaches the operating system: the
  interpreter raises \<open>ValueError\<close> for it. Otherwise a failed look-up raises the
  \<open>OSError\<close> of its error number.
\<close>

definition stat_path :: "world \<Rightarrow> string \<Rightarrow> exn + fsnode" where
  "stat_path w p =
     (if CHR 0x00 \<in> set p then Inl ValueError
      else (case fs w p of Inl e \<Rightarrow> Inl (os_error e) | Inr node \<Rightarrow> Inr node))"

text \<open>\<open>os.path.exists\<close> is false whenever \<open>os.stat\<close> raises \<open>OSError\<close> or \<open>ValueError\<close>.\<close>

definition exists_path :: "world \<Rightarrow> string \<Rightarrow> bool" where
  "exists_path w p = (case stat_path w p of Inl e \<Rightarrow> False | Inr node \<Rightarrow> True)"

definition py_open :: "world \<Rightarrow> string \<Rightarrow> exn + string" where
  "py_open w p =
     (case stat_path w p of
        Inl e \<Rightarrow> Inl e
      | Inr Directory \<Rightarrow> Inl IsADirectoryError
      | Inr NoAccess \<Rightarrow> Inl PermissionError
      | Inr (RegularFile text) \<Rightarrow> Inr text)"

text \<open>
  \<open>ConfigParser.read(filename)\<close> of the standard library opens and parses the file
  inside \<open>try ... except OSError: continue\<close>: an \<open>OSError\<close> leaves the parser without
  sections, every other exception leaves \<open>read\<close>.
\<close>

definition config_read :: "world \<Rightarrow> string \<Rightarrow> exn + (string \<times> (string \<times> string) list) list" where
  "config_read w p =
     (case (case py_open w p of Inl e \<Rightarrow> Inl e | Inr text \<Rightarrow> ini_parse w text) of
        Inl e \<Rightarrow> if is_oserror e then Inr [] else Inl e
      | Inr sections \<Rightarrow> Inr sections)"

subsection \<open>\<open>os.path.join\<close> and \<open>os.path.splitext\<close> (POSIX)\<close>

definition startswith :: "string \<Rightarrow> string \<Rightarrow> bool" where
  "startswith s pre = (take (length pre) s = pre)"

definition endswith :: "string \<Rightarrow> string \<Rightarrow> bool" where
  "endswith s suf = (length suf \<le> length s \<and> drop (length s - length suf) s = suf)"

definition join :: "string \<Rightarrow> string \<Rightarrow> string" where
  "join a b =
     (if startswith b ''/'' then b
      else if a = [] \<or> endswith a ''/'' then a @ b
      else a @ ''/'' @ b)"

text \<open>\<open>p.rfind(c)\<close>: the index of the last \<open>c\<close> in \<open>p\<close>, or \<open>-1\<close>.\<close>

fun rfind :: "string \<Rightarrow> char \<Rightarrow> int" where
  "rfind [] c = -1"
| "rfind (x # xs) c =
     (let r = rfind xs c in if r \<noteq> -1 then r + 1 else if x = c then 0 else -1)"

text \<open>The \<open>while\<close> loop of \<open>_splitext\<close>, which skips the leading dots of the last component.\<close>

function skip_leading_dots :: "string \<Rightarrow> nat \<Rightarrow> nat \<Rightarrow> string \<times> string" where
  "skip_leading_dots p filenameIndex dotIndex =
     (if filenameIndex < dotIndex then
        (if take 1 (drop filenameIndex p) \<noteq> ''.''
         then (take dotIndex p, drop dotIndex p)
         else skip_leading_dots p (filenameIndex + 1) dotIndex)
      else (p, []))"
  by pat_completeness auto
termination
  by (relation "measure (\<lambda>(p, filenameIndex, dotIndex). dotIndex - filenameIndex)") auto

declare skip_leading_dots.simps [simp del]

definition splitext :: "string \<Rightarrow> string \<times> string" where
  "splitext p =
     (let sepIndex = rfind p CHR ''/''; dotIndex = rfind p CHR ''.''
      in if dotIndex > sepIndex
         then skip_leading_dots p (nat (sepIndex + 1)) (nat dotIndex)
         else (p, []))"

subsection \<open>\<open>str.lower\<close>\<close>

text \<open>
  On code points below 256 the letters with a lower-case partner are \<open>A\<close> to \<open>Z\<close> and
  the Latin-1 capitals 192 to 222 without the multiplication sign 215; the partner is 32
  further on.
\<close>

definition is_upper :: "char \<Rightarrow> bool" where
  "is_upper c =
     (let n = (of_char c :: nat)
      in (65 \<le> n \<and> n \<le> 90) \<or> (192 \<le> n \<and> n \<le> 222 \<and> n \<noteq> 215))"

definition lower_char :: "char \<Rightarrow> char" where
  "lower_char c = (if is_upper c then char_of ((of_char c :: nat) + 32) else c)"

definition lower :: "string \<Rightarrow> string" where
  "lower s = map lower_char s"

section \<open>The merge operations of Config\<close>

definition Config_init :: "pydict option \<Rightarrow> pydict" where
  "Config_init defaults_arg = (case defaults_arg of None \<Rightarrow> [] | Some d \<Rightarrow> d)"

definition from_file ::
  "world \<Rightarrow> pydict \<Rightarrow> string \<Rightarrow> (string \<Rightarrow> exn + pydict) \<Rightarrow> bool \<Rightarrow> exn + pydict" where
  "from_file w self fname load silent =
     (if silent \<and> \<not> exists_path w fname then Inr self
      else
        (case py_open w fname of
           Inl e \<Rightarrow> Inl e
         | Inr f \<Rightarrow> (case load f of Inl e \<Rightarrow> Inl e | Inr m \<Rightarrow> Inr (dict_update self m))))"

definition from_json :: "world \<Rightarrow> pydict \<Rightarrow> string \<Rightarrow> bool \<Rightarrow> exn + pydict" where
  "from_json w self fname silent = from_file w self fname (json_load w) silent"

definition from_toml :: "world \<Rightarrow> pydict \<Rightarrow> string \<Rightarrow> bool \<Rightarrow> exn + pydict" where
  "from_toml w self fname silent = from_file w self fname (toml_load w) silent"

definition from_yaml :: "world \<Rightarrow> pydict \<Rightarrow> string \<Rightarrow> bool \<Rightarrow> exn + pydict" where
  "from_yaml w self fname silent = from_file w self fname (yaml_load w) silent"

definition section_dict :: "(string \<times> string) list \<Rightarrow> pyval" where
  "section_dict items = VDict (map (\<lambda>(k, v). (k, VStr v)) items)"

text \<open>The \<open>for section in config.sections()\<close> loop of \<open>from_ini\<close>.\<close>

fun ini_sections :: "pydict \<Rightarrow> (string \<times> (string \<times> string) list) list \<Rightarrow> pydict" where
  "ini_sections self [] = self"
| "ini_sections self ((name, items) # rest) =
     ini_sections (dict_setitem self name (section_dict items)) rest"

definition from_ini :: "world \<Rightarrow> pydict \<Rightarrow> string \<Rightarrow> bool \<Rightarrow> exn + pydict" where
  "from_ini w self fname silent =
     (if silent \<and> \<not> exists_path w fname then Inr self
      else
        (case config_read w fname of
           Inl e \<Rightarrow> Inl e
         | Inr sections \<Rightarrow> Inr (ini_sections self sections)))"

text \<open>\<open>if filename\<close> is false for \<open>None\<close> and for the empty string.\<close>

definition from_dotenv :: "world \<Rightarrow> pydict \<Rightarrow> string option \<Rightarrow> bool \<Rightarrow> exn + pydict" where
  "from_dotenv w self fname silent =
     (case (case fname of
              None \<Rightarrow> False
            | Some name \<Rightarrow> name \<noteq> [] \<and> \<not> exists_path w name) of
        True \<Rightarrow> if silent then Inr self else Inl (IOError ''File not found'')
      | False \<Rightarrow>
          (case dotenv_values w fname of
             Inl e \<Rightarrow> Inl e
           | Inr m \<Rightarrow> Inr (dict_update self m)))"

section \<open>Loader\<close>

record loader =
  filename :: string
  filetype :: "string option"
  paths :: "string list"
  defaults :: "pydict option"

datatype merge_method = From_json | From_toml | From_yaml | From_ini | From_dotenv

definition from_map :: "(string \<times> merge_method) list" where
  "from_map =
     [(''json'', From_json), (''toml'', From_toml), (''yaml'', From_yaml),
      (''ini'', From_ini), (''env'', From_dotenv)]"

definition in_from_map :: "string \<Rightarrow> bool" where
  "in_from_map ft = (map_of from_map ft \<noteq> None)"

definition set_defaults :: "loader \<Rightarrow> pydict option \<Rightarrow> loader" where
  "set_defaults l d = l\<lparr>defaults := d\<rparr>"

definition add_folder_path :: "loader \<Rightarrow> string \<Rightarrow> loader" where
  "add_folder_path l p = l\<lparr>paths := paths l @ [p]\<rparr>"

text \<open>\<open>not filetype\<close> holds for \<open>None\<close> and for the empty string.\<close>

definition no_filetype :: "loader \<Rightarrow> bool" where
  "no_filetype l = (case filetype l of None \<Rightarrow> True | Some ft \<Rightarrow> ft = [])"

text \<open>
  The local variable \<open>filetype\<close> at line 150: the explicit file type, or \<open>ext[1:]\<close>
  for the extension of the file name.
\<close>

definition resolved_filetype :: "loader \<Rightarrow> string" where
  "resolved_filetype l =
     (if no_filetype l then drop 1 (snd (splitext (filename l)))
      else (case filetype l of None \<Rightarrow> [] | Some ft \<Rightarrow> ft))"

text \<open>Lines 142 to 149, with the \<open>raise\<close> of line 146.\<close>

definition pick_filetype :: "loader \<Rightarrow> exn + string" where
  "pick_filetype l =
     (if no_filetype l \<and> length (snd (splitext (filename l))) < 1
      then Inl (UnknownFileType
                  (''Could not find file type from file name: '' @ filename l))
      else Inr (resolved_filetype l))"

definition get_filetype :: "loader \<Rightarrow> exn + string" where
  "get_filetype l =
     (case pick_filetype l of
        Inl e \<Rightarrow> Inl e
      | Inr ft \<Rightarrow>
          (let filetype_l = lower ft
           in if \<not> in_from_map filetype_l
              then Inl (UnknownFileType (''Unknown file type: '' @ ft))
              else Inr ft))"

text \<open>
  \<open>getattr(config, name)\<close>: the bound method of that name, applied to a file name and
  \<open>silent\<close>. The loop of \<open>build\<close> calls it as \<open>loader(full_path)\<close>, where \<open>silent\<close>
  takes its default \<open>False\<close>.
\<close>

fun call_method ::
  "world \<Rightarrow> merge_method \<Rightarrow> pydict \<Rightarrow> string \<Rightarrow> bool \<Rightarrow> exn + pydict" where
  "call_method w From_json config fname silent = from_json w config fname silent"
| "call_method w From_toml config fname silent = from_toml w config fname silent"
| "call_method w From_yaml config fname silent = from_yaml w config fname silent"
| "call_method w From_ini config fname silent = from_ini w config fname silent"
| "call_method w From_dotenv config fname silent = from_dotenv w config (Some fname) silent"

text \<open>The \<open>for path in self.paths\<close> loop, on the pair of \<open>config\<close> and \<open>config_file_found\<close>.\<close>

fun build_loop ::
  "world \<Rightarrow> merge_method \<Rightarrow> string \<Rightarrow> string list \<Rightarrow> pydict \<times> bool \<Rightarrow> exn + pydict \<times> bool" where
  "build_loop w m fname [] st = Inr st"
| "build_loop w m fname (path # rest) (config, config_file_found) =
     (let full_path = join path fname
      in if \<not> exists_path w full_path
         then build_loop w m fname rest (config, config_file_found)
         else
           (case call_method w m config full_path False of
              Inl e \<Rightarrow> Inl e
            | Inr config' \<Rightarrow> build_loop w m fname rest (config', True)))"

definition build :: "world \<Rightarrow> loader \<Rightarrow> bool \<Rightarrow> exn + pydict" where
  "build w l silent =
     (case get_filetype l of
        Inl e \<Rightarrow> Inl e
      | Inr ft \<Rightarrow>
          (case map_of from_map ft of
             None \<Rightarrow> Inl (UnknownFileType (''Unknown file type: '' @ ft))
           | Some m \<Rightarrow>
               (case build_loop w m (filename l) (paths l) (Config_init (defaults l), False) of
                  Inl e \<Rightarrow> Inl e
                | Inr (config, config_file_found) \<Rightarrow>
                    if \<not> config_file_found \<and> \<not> silent
                    then Inl (NoConfigFileFound ''No configration file found'')
                    else Inr config)))"

section \<open>What a file holds, and example inputs\<close>

text \<open>
  The mapping that a merge method overlays when it is given an existing file that its
  library accepts: the argument of \<open>self.update\<close>, and for \<open>from_ini\<close> the sections with
  the dictionaries assigned in its loop.
\<close>

definition ini_mapping :: "(string \<times> (string \<times> string) list) list \<Rightarrow> pydict" where
  "ini_mapping sections = map (\<lambda>(name, items). (name, section_dict items)) sections"

definition loaded :: "world \<Rightarrow> (string \<Rightarrow> exn + pydict) \<Rightarrow> string \<Rightarrow> pydict option" where
  "loaded w load fname =
     (case py_open w fname of
        Inl e \<Rightarrow> None
      | Inr text \<Rightarrow> (case load text of Inl e \<Rightarrow> None | Inr m \<Rightarrow> Some m))"

fun file_mapping :: "world \<Rightarrow> merge_method \<Rightarrow> string \<Rightarrow> pydict option" where
  "file_mapping w From_json fname = loaded w (json_load w) fname"
| "file_mapping w From_toml fname = loaded w (toml_load w) fname"
| "file_mapping w From_yaml fname = loaded w (yaml_load w) fname"
| "file_mapping w From_ini fname =
     (case py_open w fname of
        Inl e \<Rightarrow> None
      | Inr text \<Rightarrow>
          (case ini_parse w text of Inl e \<Rightarrow> None | Inr sections \<Rightarrow> Some (ini_mapping sections)))"
| "file_mapping w From_dotenv fname =
     (if exists_path w fname
      then (case dotenv_values w (Some fname) of Inl e \<Rightarrow> None | Inr m \<Rightarrow> Some m)
      else None)"

text \<open>
  A small machine: \<open>/etc/app.json\<close> and \<open>/home/u/app.json\<close> are files whose JSON
  texts give \<open>port\<close> two different values, \<open>/etc/app.ini\<close> has one section, and the
  dotenv library returns an empty mapping for every path that is not a file and for its
  own discovery.
\<close>

definition ex_fs :: "string \<Rightarrow> errno + fsnode" where
  \<open>ex_fs p =
     (if p = ''/etc/app.json'' then Inr (RegularFile ''{"port": 80, "host": "a"}'')
      else if p = ''/home/u/app.json'' then Inr (RegularFile ''{"port": 8080}'')
      else if p = ''/etc/app.ini'' then Inr (RegularFile ''[server]host=localhost'')
      else if p = ''/etc'' \<or> p = ''/home/u'' then Inr Directory
      else if p = ''/etc/app.json/x.ini'' then Inl ENOTDIR
      else Inl ENOENT)\<close>

definition ex_json :: "string \<Rightarrow> exn + pydict" where
  \<open>ex_json text =
     (if text = ''{"port": 80, "host": "a"}''
      then Inr [(''port'', VInt 80), (''host'', VStr ''a'')]
      else if text = ''{"port": 8080}'' then Inr [(''port'', VInt 8080)]
      else Inl (ParseError ''json''))\<close>

definition ex_ini :: "string \<Rightarrow> exn + (string \<times> (string \<times> string) list) list" where
  "ex_ini text =
     (if text = ''[server]host=localhost''
      then Inr [(''server'', [(''host'', ''localhost'')])]
      else Inl (ParseError ''ini''))"

definition ex_world :: world where
  "ex_world =
     \<lparr>fs = ex_fs, json_load = ex_json,
      toml_load = (\<lambda>text. Inl (ParseError ''toml'')),
      yaml_load = (\<lambda>text. Inl (ParseError ''yaml'')),
      ini_parse = ex_ini,
      dotenv_values = (\<lambda>p. Inr [])\<rparr>"

definition ex_loader :: "string \<Rightarrow> string option \<Rightarrow> loader" where
  "ex_loader fname ft =
     add_folder_path
       (add_folder_path
          \<lparr>filename = fname, filetype = ft, paths = [], defaults = None\<rparr> ''/etc'')
       ''/home/u''"


definition ex_config :: pydict where
  "ex_config = [(''a'', VDict [(''b'', VList [VInt 10, VInt 20])]), (''s'', VStr ''x'')]"

section \<open>Nested lookup\<close>

lemma get_recursive_from_reach:
  "get_recursive_from data setting fb = Inr (case reach data setting of None \<Rightarrow> fb | Some v \<Rightarrow> v)"
  by (induction setting arbitrary: data) (simp_all split: option.split)

lemma reach_append:
  "reach data (pre @ rest) = (case reach data pre of None \<Rightarrow> None | Some d \<Rightarrow> reach d rest)"
  by (induction pre arbitrary: data) (simp_all split: option.split)

lemma descend_dict:
  "descend (VDict d) path = map_of d path"
  by (cases "map_of d path") (simp_all add: descend_def dict_contains_def)

lemma descend_list:
  "descend (VList xs) path =
     (case py_int path of
        Inl e \<Rightarrow> None
      | Inr i \<Rightarrow>
          if - int (length xs) \<le> i \<and> i < int (length xs)
          then Some (xs ! nat (if i < 0 then i + int (length xs) else i))
          else None)"
  by (cases "py_int path") (auto simp add: descend_def Let_def)

lemma descend_other:
  "\<not> is_dict data \<Longrightarrow> \<not> is_list data \<Longrightarrow> descend data path = None"
  by (simp add: descend_def)

text \<open>
  Claim C5. For every Config, every list of string segments and every fallback,
  \<open>get_recursive\<close> returns a value and raises nothing. Whenever the node reached after
  some of the segments cannot be descended with the next one (it is neither a dictionary
  nor a list, it is a dictionary without that key, it is a list and \<open>int\<close> rejects the
  segment, or the index lies outside the list), the result is the fallback.
\<close>

theorem get_recursive_never_raises:
  "(\<exists>v. get_recursive self setting fallback = Inr v) \<and>
   (reach (VDict self) pre = Some data \<and>
    (case data of
       VDict d \<Rightarrow> map_of d path = None
     | VList xs \<Rightarrow>
         (case py_int path of
            Inl e \<Rightarrow> True
          | Inr i \<Rightarrow> i < - int (length xs) \<or> int (length xs) \<le> i)
     | _ \<Rightarrow> True)
    \<longrightarrow> get_recursive self (pre @ path # rest) fallback = Inr fallback)"
proof (intro conjI impI)
  show "\<exists>v. get_recursive self setting fallback = Inr v"
    by (simp add: get_recursive_def get_recursive_from_reach)
next
  assume h: "reach (VDict self) pre = Some data \<and>
    (case data of
       VDict d \<Rightarrow> map_of d path = None
     | VList xs \<Rightarrow>
         (case py_int path of
            Inl e \<Rightarrow> True
          | Inr i \<Rightarrow> i < - int (length xs) \<or> int (length xs) \<le> i)
     | _ \<Rightarrow> True)"
  have "descend data path = None"
  proof (cases data)
    case (VDict d)
    with h show ?thesis by (simp add: descend_dict)
  next
    case (VList xs)
    with h show ?thesis by (auto simp add: descend_list split: sum.splits)
  qed (simp_all add: descend_other)
  with h show "get_recursive self (pre @ path # rest) fallback = Inr fallback"
    by (simp add: get_recursive_def get_recursive_from_reach reach_append)
qed

lemma py_int_minus_one: "py_int ''-1'' = Inr (- 1)"
  by (simp add: py_int_def strip_def is_space_def digits_body_def is_digit_def digit_value_def
      int_max_str_digits_def)

lemma py_int_five: "py_int ''5'' = Inr 5"
  by (simp add: py_int_def strip_def is_space_def digits_body_def is_digit_def digit_value_def
      int_max_str_digits_def)

lemma py_int_control_character: "py_int [CHR 0x1C, CHR ''1''] = Inl ValueError"
  by (simp add: py_int_def strip_def is_space_def digits_body_def is_digit_def
      int_max_str_digits_def)

lemma digits_body_limit:
  "int_max_str_digits < length (filter is_digit s) \<Longrightarrow> digits_body s = None"
  by (cases s) (simp_all add: digits_body_def)

lemma ex_reach: "reach (VDict ex_config) [''a'', ''b''] = Some (VList [VInt 10, VInt 20])"
  by (simp add: ex_config_def descend_dict)

theorem get_recursive_never_raises_witness:
  "reach (VDict ex_config) [''a'', ''b''] = Some (VList [VInt 10, VInt 20]) \<and>
   py_int ''5'' = Inr 5 \<and>
   (\<exists>v. get_recursive ex_config [''a'', ''b'', ''5'', ''c''] (VStr ''fb'') = Inr v) \<and>
   get_recursive ex_config [''a'', ''b'', ''5'', ''c''] (VStr ''fb'') = Inr (VStr ''fb'')"
proof -
  have r: "reach (VDict ex_config) [''a'', ''b''] = Some (VList [VInt 10, VInt 20])"
    by (rule ex_reach)
  have p: "py_int ''5'' = Inr 5"
    by (rule py_int_five)
  have f: "(case VList [VInt 10, VInt 20] of
       VDict d \<Rightarrow> map_of d ''5'' = None
     | VList xs \<Rightarrow>
         (case py_int ''5'' of
            Inl e \<Rightarrow> True
          | Inr i \<Rightarrow> i < - int (length xs) \<or> int (length xs) \<le> i)
     | _ \<Rightarrow> True)"
    by (simp add: p)
  from get_recursive_never_raises [of ex_config "[''a'', ''b'', ''5'', ''c'']" "VStr ''fb''"
      "[''a'', ''b'']" "VList [VInt 10, VInt 20]" "''5''" "[''c'']"] r f
  have g: "(\<exists>v. get_recursive ex_config [''a'', ''b'', ''5'', ''c''] (VStr ''fb'') = Inr v) \<and>
        get_recursive ex_config ([''a'', ''b''] @ ''5'' # [''c'']) (VStr ''fb'') = Inr (VStr ''fb'')"
    by blast
  from g have e: "\<exists>v. get_recursive ex_config [''a'', ''b'', ''5'', ''c''] (VStr ''fb'') = Inr v"
    by (rule conjunct1)
  from g have "get_recursive ex_config ([''a'', ''b''] @ ''5'' # [''c'']) (VStr ''fb'') = Inr (VStr ''fb'')"
    by (rule conjunct2)
  then have c: "get_recursive ex_config [''a'', ''b'', ''5'', ''c''] (VStr ''fb'') = Inr (VStr ''fb'')"
    by simp
  from r p e c show ?thesis
    by (intro conjI)
qed

text \<open>
  Claim C6, as amended. On a list of length \<open>n\<close> the descent succeeds exactly when
  \<open>int\<close> parses the segment as an integer \<open>i\<close> with \<open>-n \<le> i < n\<close>, and then yields
  the element at \<open>i\<close>, or at \<open>i + n\<close> for a negative \<open>i\<close>; whenever the descent does not
  succeed, \<open>get_recursive\<close> returns the fallback.
\<close>

theorem list_descent:
  "(descend (VList xs) path = Some v \<longleftrightarrow>
      (\<exists>i. py_int path = Inr i \<and> - int (length xs) \<le> i \<and> i < int (length xs) \<and>
           v = xs ! nat (if i < 0 then i + int (length xs) else i))) \<and>
   (descend (VList xs) path = None \<longrightarrow>
      get_recursive_from (VList xs) (path # rest) fallback = Inr fallback)"
  by (auto simp add: descend_list split: sum.splits if_splits)

theorem list_descent_witness:
  "py_int ''-1'' = Inr (- 1) \<and>
   descend (VList [VInt 10, VInt 20]) ''-1'' = Some (VInt 20) \<and>
   descend (VList [VInt 10, VInt 20]) ''5'' = None \<and>
   get_recursive_from (VList [VInt 10, VInt 20]) [''5'', ''x''] VNone = Inr VNone"
proof -
  have m: "py_int ''-1'' = Inr (- 1)"
    by (rule py_int_minus_one)
  have rhs: "\<exists>i. py_int ''-1'' = Inr i \<and> - int (length [VInt 10, VInt 20]) \<le> i \<and>
      i < int (length [VInt 10, VInt 20]) \<and>
      VInt 20 = [VInt 10, VInt 20] ! nat (if i < 0 then i + int (length [VInt 10, VInt 20]) else i)"
    by (simp add: m)
  have n: "descend (VList [VInt 10, VInt 20]) ''5'' = None"
    by (simp add: descend_list py_int_five)
  from list_descent [of "[VInt 10, VInt 20]" "''-1''" "VInt 20"] rhs
  have a: "descend (VList [VInt 10, VInt 20]) ''-1'' = Some (VInt 20)"
    by blast
  from list_descent [of "[VInt 10, VInt 20]" "''5''" "VInt 0" "[''x'']" VNone] n
  have b: "get_recursive_from (VList [VInt 10, VInt 20]) [''5'', ''x''] VNone = Inr VNone"
    by blast
  from m a n b show ?thesis
    by blast
qed

text \<open>
  The claim C6 as stated fails: the segment \<open>-1\<close> denotes a negative integer, and on
  the non-empty list \<open>[10, 20]\<close> the lookup returns the last element, not the fallback.
\<close>

theorem negative_index_counterexample:
  "py_int ''-1'' = Inr (- 1) \<and>
   get_recursive ex_config [''a'', ''b'', ''-1''] VNone = Inr (VInt 20)"
  by (simp add: py_int_minus_one get_recursive_def ex_config_def descend_dict descend_list)

section \<open>Format resolution\<close>

lemma rfind_absent: "c \<notin> set p \<Longrightarrow> rfind p c = - 1"
  by (induction p) (auto simp add: Let_def)

lemma rfind_bound: "c \<notin> set ys \<Longrightarrow> rfind (xs @ ys) c < int (length xs)"
proof (induction xs)
  case Nil
  then show ?case by (simp add: rfind_absent)
next
  case (Cons x xs)
  then show ?case by (simp add: Let_def)
qed

lemma rfind_last: "c \<notin> set ys \<Longrightarrow> rfind (xs @ c # ys) c = int (length xs)"
  by (induction xs) (simp_all add: Let_def rfind_absent)

lemma rfind_lower: "- 1 \<le> rfind p c"
  by (induction p) (simp_all add: Let_def)

lemma skip_leading_dots_found:
  "i \<le> j \<Longrightarrow> j < d \<Longrightarrow> take 1 (drop j p) \<noteq> ''.'' \<Longrightarrow>
   skip_leading_dots p i d = (take d p, drop d p)"
proof (induction p i d rule: skip_leading_dots.induct)
  case (1 p i d)
  show ?case
  proof (cases "take 1 (drop i p) \<noteq> ''.''")
    case True
    with 1 show ?thesis by (simp add: skip_leading_dots.simps [of p i d])
  next
    case False
    with 1 have "i \<noteq> j" by auto
    with 1 have le: "i + 1 \<le> j" by simp
    from 1 have lt: "i < d" by simp
    from "1.IH" [OF lt _ le "1.prems"(2) "1.prems"(3)] False
    have "skip_leading_dots p (i + 1) d = (take d p, drop d p)" by simp
    with False lt show ?thesis by (simp add: skip_leading_dots.simps [of p i d])
  qed
qed

lemma splitext_extension:
  assumes base: "CHR ''/'' \<notin> set base" "c \<in> set base" "c \<noteq> CHR ''.''"
    and ext: "CHR ''/'' \<notin> set ext" "CHR ''.'' \<notin> set ext"
  shows "splitext (pre @ base @ ''.'' @ ext) = (pre @ base, ''.'' @ ext)"
proof -
  let ?p = "pre @ base @ ''.'' @ ext"
  from base obtain k where k: "k < length base" "base ! k = c"
    by (auto simp add: in_set_conv_nth)
  have "CHR ''/'' \<notin> set (base @ ''.'' @ ext)"
    using base ext by simp
  then have sep: "rfind ?p CHR ''/'' < int (length pre)"
    by (rule rfind_bound)
  have "rfind ((pre @ base) @ CHR ''.'' # ext) CHR ''.'' = int (length (pre @ base))"
    using ext by (intro rfind_last)
  then have dot: "rfind ?p CHR ''.'' = int (length pre + length base)"
    by simp
  have low: "- 1 \<le> rfind ?p CHR ''/''"
    by (rule rfind_lower)
  have j1: "nat (rfind ?p CHR ''/'' + 1) \<le> length pre + k"
    using sep low by simp
  have j2: "length pre + k < length pre + length base"
    using k by simp
  have "drop (length pre + k) ?p = drop k base @ ''.'' @ ext"
    using k by simp
  moreover have "drop k base = c # drop (Suc k) base"
    using k Cons_nth_drop_Suc [of k base] by simp
  ultimately have j3: "take 1 (drop (length pre + k) ?p) \<noteq> ''.''"
    using base by simp
  have "skip_leading_dots ?p (nat (rfind ?p CHR ''/'' + 1)) (length pre + length base)
        = (take (length pre + length base) ?p, drop (length pre + length base) ?p)"
    using j1 j2 j3 by (rule skip_leading_dots_found)
  moreover have "rfind ?p CHR ''/'' < rfind ?p CHR ''.''"
    using sep dot by simp
  ultimately show ?thesis
    using dot by (simp add: splitext_def Let_def nat_int_add)
qed

lemma in_from_map_cases:
  "in_from_map ft \<longleftrightarrow> ft \<in> {''json'', ''toml'', ''yaml'', ''ini'', ''env''}"
  by (auto simp add: in_from_map_def from_map_def)

lemma lower_json: "lower ''json'' = ''json''"
  by code_simp

lemma lower_toml: "lower ''toml'' = ''toml''"
  by code_simp

lemma lower_yaml: "lower ''yaml'' = ''yaml''"
  by code_simp

lemma lower_ini: "lower ''ini'' = ''ini''"
  by code_simp

lemma lower_env: "lower ''env'' = ''env''"
  by code_simp

lemma registered_lower: "in_from_map ft \<Longrightarrow> lower ft = ft"
  unfolding in_from_map_cases
  using lower_json lower_toml lower_yaml lower_ini lower_env by auto

lemma registered_plain:
  "in_from_map ft \<Longrightarrow> CHR ''/'' \<notin> set ft \<and> CHR ''.'' \<notin> set ft \<and> ft \<noteq> []"
  unfolding in_from_map_cases by auto

text \<open>
  Claim C7, as amended. With no explicit file type, a file name that ends in a dot and
  one of the five registered identifiers, spelled as in the registry, resolves to that
  identifier, provided that the text between the last \<open>/\<close> and that dot holds a
  character other than a dot (\<open>splitext\<close> does not take the leading dots of the last
  component for an extension).
\<close>

theorem extension_resolves:
  assumes "filetype l = None"
    and "filename l = pre @ base @ ''.'' @ ext"
    and "CHR ''/'' \<notin> set base"
    and "\<exists>c \<in> set base. c \<noteq> CHR ''.''"
    and "in_from_map ext"
  shows "get_filetype l = Inr ext"
proof -
  from assms(4) obtain c where c: "c \<in> set base" "c \<noteq> CHR ''.''"
    by blast
  from assms(5) have plain: "CHR ''/'' \<notin> set ext" "CHR ''.'' \<notin> set ext"
    by (simp_all add: registered_plain)
  from assms(3) c plain have "splitext (pre @ base @ ''.'' @ ext) = (pre @ base, ''.'' @ ext)"
    by (rule splitext_extension)
  with assms(2) have sp: "snd (splitext (filename l)) = ''.'' @ ext"
    by simp
  from assms(1) have nf: "no_filetype l"
    by (simp add: no_filetype_def)
  from sp nf have "pick_filetype l = Inr ext"
    by (simp add: pick_filetype_def resolved_filetype_def)
  with assms(5) show ?thesis
    by (simp add: get_filetype_def registered_lower)
qed

theorem extension_resolves_witness:
  "filetype (ex_loader ''conf.d/.app.toml'' None) = None \<and>
   filename (ex_loader ''conf.d/.app.toml'' None) = ''conf.d/'' @ ''.app'' @ ''.'' @ ''toml'' \<and>
   CHR ''/'' \<notin> set ''.app'' \<and> (\<exists>c \<in> set ''.app''. c \<noteq> CHR ''.'') \<and>
   in_from_map ''toml'' \<and>
   get_filetype (ex_loader ''conf.d/.app.toml'' None) = Inr ''toml''"
proof -
  have a: "filetype (ex_loader ''conf.d/.app.toml'' None) = None"
    by (simp add: ex_loader_def add_folder_path_def)
  have b: "filename (ex_loader ''conf.d/.app.toml'' None) = ''conf.d/'' @ ''.app'' @ ''.'' @ ''toml''"
    by (simp add: ex_loader_def add_folder_path_def)
  have c: "CHR ''/'' \<notin> set ''.app''"
    by simp
  have d: "\<exists>c \<in> set ''.app''. c \<noteq> CHR ''.''"
    by simp
  have e: "in_from_map ''toml''"
    by (simp add: in_from_map_def from_map_def)
  from a b c d e have "get_filetype (ex_loader ''conf.d/.app.toml'' None) = Inr ''toml''"
    by (rule extension_resolves)
  with a b c d e show ?thesis
    by (intro conjI)
qed

text \<open>
  The claim C7 as stated fails: the text after the last dot of \<open>.env\<close> is \<open>env\<close>, but
  \<open>splitext\<close> finds no extension and the resolution raises \<open>UnknownFileType\<close>.
\<close>

theorem dotfile_counterexample:
  "get_filetype (ex_loader ''.env'' None) =
     Inl (UnknownFileType ''Could not find file type from file name: .env'')"
  by (simp add: get_filetype_def pick_filetype_def no_filetype_def ex_loader_def
      add_folder_path_def splitext_def skip_leading_dots.simps)

text \<open>
  Claim C8. \<open>_get_filetype\<close> raises \<open>UnknownFileType\<close> exactly when no explicit file
  type was given and the file name has no extension, or the resolved file type, in lower
  case, is not one of the five registered identifiers; a Loader for \<open>app.config\<close> without
  an explicit file type raises it.
\<close>

theorem unknown_filetype_iff:
  "((\<exists>msg. get_filetype l = Inl (UnknownFileType msg)) \<longleftrightarrow>
      (filetype l = None \<and> snd (splitext (filename l)) = []) \<or>
      \<not> in_from_map (lower (resolved_filetype l))) \<and>
   get_filetype (l\<lparr>filename := ''app.config'', filetype := None\<rparr>) =
     Inl (UnknownFileType ''Unknown file type: config'')"
proof
  have empty: "\<not> in_from_map (lower [])"
    by (simp add: lower_def in_from_map_def from_map_def)
  show "(\<exists>msg. get_filetype l = Inl (UnknownFileType msg)) \<longleftrightarrow>
      (filetype l = None \<and> snd (splitext (filename l)) = []) \<or>
      \<not> in_from_map (lower (resolved_filetype l))"
  proof (cases "no_filetype l \<and> snd (splitext (filename l)) = []")
    case True
    then have "resolved_filetype l = []"
      by (simp add: resolved_filetype_def)
    with True empty show ?thesis
      by (simp add: get_filetype_def pick_filetype_def)
  next
    case False
    then have "pick_filetype l = Inr (resolved_filetype l)"
      by (auto simp add: pick_filetype_def)
    moreover from False have "\<not> (filetype l = None \<and> snd (splitext (filename l)) = [])"
      by (auto simp add: no_filetype_def)
    ultimately show ?thesis
      by (simp add: get_filetype_def Let_def)
  qed
next
  have "splitext ''app.config'' = (''app'', ''.config'')"
    by (simp add: splitext_def skip_leading_dots.simps)
  moreover have "\<not> in_from_map (lower ''config'')"
    by code_simp
  ultimately show "get_filetype (l\<lparr>filename := ''app.config'', filetype := None\<rparr>) =
     Inl (UnknownFileType ''Unknown file type: config'')"
    by (simp add: get_filetype_def pick_filetype_def resolved_filetype_def no_filetype_def)
qed


theorem unknown_filetype_iff_witness:
  "filetype (ex_loader ''Makefile'' None) = None \<and>
   snd (splitext (filename (ex_loader ''Makefile'' None))) = [] \<and>
   (\<exists>msg. get_filetype (ex_loader ''Makefile'' None) = Inl (UnknownFileType msg))"
proof -
  have a: "filetype (ex_loader ''Makefile'' None) = None"
    by (simp add: ex_loader_def add_folder_path_def)
  have b: "snd (splitext (filename (ex_loader ''Makefile'' None))) = []"
    by (simp add: ex_loader_def add_folder_path_def splitext_def)
  from unknown_filetype_iff [of "ex_loader ''Makefile'' None"] a b
  have "\<exists>msg. get_filetype (ex_loader ''Makefile'' None) = Inl (UnknownFileType msg)"
    by blast
  with a b show ?thesis
    by (intro conjI)
qed

text \<open>
  Claim C1 does not hold of the code. For the explicit file type \<open>JSON\<close> the check of
  \<open>_get_filetype\<close> passes, on the lower-case form, but the original spelling is
  returned and \<open>build\<close> looks that one up in the registry: it raises \<open>UnknownFileType\<close>
  where the file type \<open>json\<close> builds the Config.
\<close>

theorem upper_case_filetype_rejected:
  "get_filetype (ex_loader ''app.json'' (Some ''JSON'')) = Inr ''JSON'' \<and>
   build ex_world (ex_loader ''app.json'' (Some ''JSON'')) False =
     Inl (UnknownFileType ''Unknown file type: JSON'') \<and>
   build ex_world (ex_loader ''app.json'' (Some ''json'')) False =
     Inr [(''port'', VInt 8080), (''host'', VStr ''a'')]"
  by code_simp

section \<open>Merging\<close>

lemma map_of_dict_setitem: "map_of (dict_setitem d k v) = (map_of d)(k \<mapsto> v)"
  by (induction d) (auto simp add: fun_eq_iff)

lemma dict_update_other:
  "k \<notin> fst ` set m \<Longrightarrow> map_of (dict_update d m) k = map_of d k"
proof (induction m arbitrary: d)
  case Nil
  then show ?case by simp
next
  case (Cons kv m)
  obtain k' v' where kv: "kv = (k', v')" by (cases kv)
  with Cons.prems have "k \<noteq> k'" and "k \<notin> fst ` set m" by auto
  with Cons.IH [of "dict_setitem d k' v'"] kv show ?case
    by (simp add: map_of_dict_setitem)
qed

lemma dict_update_member:
  "distinct (map fst m) \<Longrightarrow> (k, v) \<in> set m \<Longrightarrow> map_of (dict_update d m) k = Some v"
proof (induction m arbitrary: d)
  case Nil
  then show ?case by simp
next
  case (Cons kv m)
  obtain k' v' where kv: "kv = (k', v')" by (cases kv)
  from Cons.prems kv have fresh: "k' \<notin> fst ` set m" and dist: "distinct (map fst m)"
    by simp_all
  show ?case
  proof (cases "(k, v) = (k', v')")
    case True
    with fresh kv show ?thesis
      by (simp add: dict_update_other map_of_dict_setitem)
  next
    case False
    with Cons.prems kv have "(k, v) \<in> set m" by auto
    with Cons.IH [OF dist, of "dict_setitem d k' v'"] kv show ?thesis by simp
  qed
qed

lemma ini_sections_update: "ini_sections c sections = dict_update c (ini_mapping sections)"
  by (induction sections arbitrary: c) (auto simp add: ini_mapping_def)

lemma py_open_exists: "py_open w fname = Inr text \<Longrightarrow> exists_path w fname"
  by (auto simp add: py_open_def exists_path_def split: sum.splits)

lemma from_file_loaded:
  assumes "loaded w load fname = Some m"
  shows "from_file w c fname load silent = Inr (dict_update c m)"
proof -
  from assms obtain content where t: "py_open w fname = Inr content" "load content = Inr m"
    by (auto simp add: loaded_def split: sum.splits)
  from t(1) have "exists_path w fname" by (rule py_open_exists)
  with t show ?thesis by (simp add: from_file_def)
qed

lemma file_mapping_exists:
  "file_mapping w meth fname = Some m \<Longrightarrow> exists_path w fname"
  by (cases meth)
     (auto simp add: loaded_def py_open_exists split: sum.splits if_splits)

lemma call_method_mapping:
  assumes "file_mapping w meth fname = Some m"
  shows "call_method w meth c fname silent = Inr (dict_update c m)"
proof (cases meth)
  case From_json
  with assms show ?thesis by (simp add: from_json_def from_file_loaded)
next
  case From_toml
  with assms show ?thesis by (simp add: from_toml_def from_file_loaded)
next
  case From_yaml
  with assms show ?thesis by (simp add: from_yaml_def from_file_loaded)
next
  case From_ini
  with assms obtain content sections where t: "py_open w fname = Inr content"
      "ini_parse w content = Inr sections" "m = ini_mapping sections"
    by (auto split: sum.splits)
  from t(1) have "exists_path w fname" by (rule py_open_exists)
  with t From_ini show ?thesis
    by (simp add: from_ini_def config_read_def ini_sections_update)
next
  case From_dotenv
  with assms have "exists_path w fname" "dotenv_values w (Some fname) = Inr m"
    by (auto split: sum.splits if_splits)
  with From_dotenv show ?thesis by (simp add: from_dotenv_def)
qed

text \<open>
  Claim C4. When the file can be opened and its library returns the mapping \<open>m\<close> (a
  dictionary, so its keys are distinct), \<open>from_file\<close> and each of the five merge methods
  return a Config in which every key of \<open>m\<close> has the value it has in \<open>m\<close>, and every
  other key looks up as it did before the merge; so does \<open>from_dotenv\<close> without a file
  name, for the mapping that the dotenv library discovers.
\<close>

theorem merge_overlays:
  assumes "distinct (map fst m)"
  shows "(loaded w load fname = Some m \<longrightarrow>
           (\<exists>c'. from_file w c fname load silent = Inr c' \<and>
                 (\<forall>k v. (k, v) \<in> set m \<longrightarrow> map_of c' k = Some v) \<and>
                 (\<forall>k. k \<notin> fst ` set m \<longrightarrow> map_of c' k = map_of c k))) \<and>
         (file_mapping w meth fname = Some m \<longrightarrow>
           (\<exists>c'. call_method w meth c fname silent = Inr c' \<and>
                 (\<forall>k v. (k, v) \<in> set m \<longrightarrow> map_of c' k = Some v) \<and>
                 (\<forall>k. k \<notin> fst ` set m \<longrightarrow> map_of c' k = map_of c k))) \<and>
         (dotenv_values w None = Inr m \<longrightarrow>
           (\<exists>c'. from_dotenv w c None silent = Inr c' \<and>
                 (\<forall>k v. (k, v) \<in> set m \<longrightarrow> map_of c' k = Some v) \<and>
                 (\<forall>k. k \<notin> fst ` set m \<longrightarrow> map_of c' k = map_of c k)))"
proof -
  have overlay: "(\<forall>k v. (k, v) \<in> set m \<longrightarrow> map_of (dict_update c m) k = Some v) \<and>
      (\<forall>k. k \<notin> fst ` set m \<longrightarrow> map_of (dict_update c m) k = map_of c k)"
    using assms by (simp add: dict_update_member dict_update_other)
  show ?thesis
  proof (intro conjI impI)
    assume "loaded w load fname = Some m"
    then have "from_file w c fname load silent = Inr (dict_update c m)"
      by (rule from_file_loaded)
    with overlay show "\<exists>c'. from_file w c fname load silent = Inr c' \<and>
        (\<forall>k v. (k, v) \<in> set m \<longrightarrow> map_of c' k = Some v) \<and>
        (\<forall>k. k \<notin> fst ` set m \<longrightarrow> map_of c' k = map_of c k)"
      by blast
  next
    assume "file_mapping w meth fname = Some m"
    then have "call_method w meth c fname silent = Inr (dict_update c m)"
      by (rule call_method_mapping)
    with overlay show "\<exists>c'. call_method w meth c fname silent = Inr c' \<and>
        (\<forall>k v. (k, v) \<in> set m \<longrightarrow> map_of c' k = Some v) \<and>
        (\<forall>k. k \<notin> fst ` set m \<longrightarrow> map_of c' k = map_of c k)"
      by blast
  next
    assume "dotenv_values w None = Inr m"
    then have "from_dotenv w c None silent = Inr (dict_update c m)"
      by (simp add: from_dotenv_def)
    with overlay show "\<exists>c'. from_dotenv w c None silent = Inr c' \<and>
        (\<forall>k v. (k, v) \<in> set m \<longrightarrow> map_of c' k = Some v) \<and>
        (\<forall>k. k \<notin> fst ` set m \<longrightarrow> map_of c' k = map_of c k)"
      by blast
  qed
qed

theorem merge_overlays_witness:
  "distinct (map fst [(''port'', VInt 8080)]) \<and>
   loaded ex_world ex_json ''/home/u/app.json'' = Some [(''port'', VInt 8080)] \<and>
   file_mapping ex_world From_json ''/home/u/app.json'' = Some [(''port'', VInt 8080)] \<and>
   (\<exists>c'. from_file ex_world [(''port'', VInt 80), (''host'', VStr ''a'')]
            ''/home/u/app.json'' ex_json False = Inr c' \<and>
         map_of c' ''port'' = Some (VInt 8080) \<and> map_of c' ''host'' = Some (VStr ''a'')) \<and>
   (\<exists>c'. call_method ex_world From_json [(''port'', VInt 80), (''host'', VStr ''a'')]
            ''/home/u/app.json'' True = Inr c' \<and>
         map_of c' ''port'' = Some (VInt 8080) \<and> map_of c' ''host'' = Some (VStr ''a''))"
proof -
  let ?m = "[(''port'', VInt 8080)]"
  let ?c = "[(''port'', VInt 80), (''host'', VStr ''a'')]"
  have d: "distinct (map fst ?m)"
    by simp
  have l: "loaded ex_world ex_json ''/home/u/app.json'' = Some ?m"
    by code_simp
  have f: "file_mapping ex_world From_json ''/home/u/app.json'' = Some ?m"
    by code_simp
  have inm: "(''port'', VInt 8080) \<in> set ?m"
    by simp
  have out: "''host'' \<notin> fst ` set ?m"
    by simp
  have old: "map_of ?c ''host'' = Some (VStr ''a'')"
    by simp
  from merge_overlays [OF d, of ex_world ex_json "''/home/u/app.json''" ?c False From_json] l
  obtain c1 where c1: "from_file ex_world ?c ''/home/u/app.json'' ex_json False = Inr c1"
      "\<forall>k v. (k, v) \<in> set ?m \<longrightarrow> map_of c1 k = Some v"
      "\<forall>k. k \<notin> fst ` set ?m \<longrightarrow> map_of c1 k = map_of ?c k"
    by blast
  from c1(2) inm have p1: "map_of c1 ''port'' = Some (VInt 8080)"
    by blast
  from c1(3) out old have h1: "map_of c1 ''host'' = Some (VStr ''a'')"
    by simp
  from merge_overlays [OF d, of ex_world ex_json "''/home/u/app.json''" ?c True From_json] f
  obtain c2 where c2: "call_method ex_world From_json ?c ''/home/u/app.json'' True = Inr c2"
      "\<forall>k v. (k, v) \<in> set ?m \<longrightarrow> map_of c2 k = Some v"
      "\<forall>k. k \<notin> fst ` set ?m \<longrightarrow> map_of c2 k = map_of ?c k"
    by blast
  from c2(2) inm have p2: "map_of c2 ''port'' = Some (VInt 8080)"
    by blast
  from c2(3) out old have h2: "map_of c2 ''host'' = Some (VStr ''a'')"
    by simp
  from d l f c1(1) p1 h1 c2(1) p2 h2 show ?thesis
    by blast
qed

section \<open>Loader.build\<close>

lemma build_loop_absent:
  "\<forall>p \<in> set ps. \<not> exists_path w (join p fname) \<Longrightarrow> build_loop w m fname ps st = Inr st"
  by (induction ps) (cases st; simp)+

lemma build_loop_two:
  assumes "file_mapping w meth (join p1 fname) = Some m1"
    and "file_mapping w meth (join p2 fname) = Some m2"
  shows "build_loop w meth fname [p1, p2] (c, found) =
           Inr (dict_update (dict_update c m1) m2, True)"
  using assms by (simp add: file_mapping_exists call_method_mapping)

text \<open>
  Claim C3. For a Loader with the search paths \<open>[p1, p2]\<close> whose format resolves to a
  registered method, where both directories hold the file and the file under \<open>p2\<close>
  gives the key \<open>k\<close> the value \<open>v\<close>, \<open>build\<close> returns a Config that maps \<open>k\<close> to
  \<open>v\<close>, whatever the file under \<open>p1\<close> and the defaults say.
\<close>

theorem last_path_wins:
  assumes "get_filetype l = Inr ft"
    and "map_of from_map ft = Some meth"
    and "paths l = [p1, p2]"
    and "file_mapping w meth (join p1 (filename l)) = Some m1"
    and "file_mapping w meth (join p2 (filename l)) = Some m2"
    and "distinct (map fst m2)"
    and "(k, v) \<in> set m2"
  shows "\<exists>config. build w l silent = Inr config \<and> map_of config k = Some v"
proof -
  from assms(4,5) have "build_loop w meth (filename l) [p1, p2] (Config_init (defaults l), False) =
      Inr (dict_update (dict_update (Config_init (defaults l)) m1) m2, True)"
    by (rule build_loop_two)
  with assms(1,2,3)
  have "build w l silent = Inr (dict_update (dict_update (Config_init (defaults l)) m1) m2)"
    by (simp add: build_def)
  moreover from assms(6,7)
  have "map_of (dict_update (dict_update (Config_init (defaults l)) m1) m2) k = Some v"
    by (rule dict_update_member)
  ultimately show ?thesis by blast
qed

theorem last_path_wins_witness:
  "get_filetype (ex_loader ''app.json'' None) = Inr ''json'' \<and>
   map_of from_map ''json'' = Some From_json \<and>
   paths (ex_loader ''app.json'' None) = [''/etc'', ''/home/u''] \<and>
   file_mapping ex_world From_json (join ''/etc'' (filename (ex_loader ''app.json'' None))) =
     Some [(''port'', VInt 80), (''host'', VStr ''a'')] \<and>
   file_mapping ex_world From_json (join ''/home/u'' (filename (ex_loader ''app.json'' None))) =
     Some [(''port'', VInt 8080)] \<and>
   (\<exists>config. build ex_world (ex_loader ''app.json'' None) False = Inr config \<and>
             map_of config ''port'' = Some (VInt 8080))"
proof -
  let ?l = "ex_loader ''app.json'' None"
  have a: "get_filetype ?l = Inr ''json''"
    by code_simp
  have b: "map_of from_map ''json'' = Some From_json"
    by (simp add: from_map_def)
  have c: "paths ?l = [''/etc'', ''/home/u'']"
    by (simp add: ex_loader_def add_folder_path_def)
  have d: "file_mapping ex_world From_json (join ''/etc'' (filename ?l)) =
      Some [(''port'', VInt 80), (''host'', VStr ''a'')]"
    by code_simp
  have e: "file_mapping ex_world From_json (join ''/home/u'' (filename ?l)) =
      Some [(''port'', VInt 8080)]"
    by code_simp
  have f: "distinct (map fst [(''port'', VInt 8080)])"
    by simp
  have g: "(''port'', VInt 8080) \<in> set [(''port'', VInt 8080)]"
    by simp
  from a b c d e f g
  have "\<exists>config. build ex_world ?l False = Inr config \<and> map_of config ''port'' = Some (VInt 8080)"
    by (rule last_path_wins)
  with a b c d e show ?thesis
    by (intro conjI)
qed

text \<open>
  Claim C2, as amended. For a Loader whose format resolves to a registered identifier
  and whose search paths hold no candidate file, \<open>build\<close> without \<open>silent\<close> raises
  \<open>NoConfigFileFound\<close>, and \<open>build\<close> with \<open>silent\<close> returns the defaults, or the empty
  Config when there are none.
\<close>

theorem no_file_found:
  assumes "get_filetype l = Inr ft"
    and "in_from_map ft"
    and "\<forall>p \<in> set (paths l). \<not> exists_path w (join p (filename l))"
  shows "build w l False = Inl (NoConfigFileFound ''No configration file found'') \<and>
         build w l True = Inr (case defaults l of None \<Rightarrow> [] | Some d \<Rightarrow> d)"
proof -
  from assms(2) obtain meth where m: "map_of from_map ft = Some meth"
    by (auto simp add: in_from_map_def)
  from assms(3)
  have "build_loop w meth (filename l) (paths l) (Config_init (defaults l), False) =
      Inr (Config_init (defaults l), False)"
    by (rule build_loop_absent)
  with assms(1) m show ?thesis
    by (simp add: build_def Config_init_def)
qed

theorem no_file_found_witness:
  "get_filetype (ex_loader ''app.toml'' None) = Inr ''toml'' \<and>
   in_from_map ''toml'' \<and>
   paths (ex_loader ''app.toml'' None) = [''/etc'', ''/home/u''] \<and>
   \<not> exists_path ex_world (join ''/etc'' (filename (ex_loader ''app.toml'' None))) \<and>
   \<not> exists_path ex_world (join ''/home/u'' (filename (ex_loader ''app.toml'' None))) \<and>
   build ex_world (ex_loader ''app.toml'' None) False =
     Inl (NoConfigFileFound ''No configration file found'') \<and>
   build ex_world (ex_loader ''app.toml'' None) True = Inr []"
proof -
  let ?l = "ex_loader ''app.toml'' None"
  have a: "get_filetype ?l = Inr ''toml''"
    by code_simp
  have b: "in_from_map ''toml''"
    by (simp add: in_from_map_def from_map_def)
  have ps: "paths ?l = [''/etc'', ''/home/u'']"
    by (simp add: ex_loader_def add_folder_path_def)
  have e1: "\<not> exists_path ex_world (join ''/etc'' (filename ?l))"
    by code_simp
  have e2: "\<not> exists_path ex_world (join ''/home/u'' (filename ?l))"
    by code_simp
  from ps e1 e2 have c: "\<forall>p \<in> set (paths ?l). \<not> exists_path ex_world (join p (filename ?l))"
    by simp
  have n: "defaults ?l = None"
    by (simp add: ex_loader_def add_folder_path_def)
  from no_file_found [OF a b c] n
  have r: "build ex_world ?l False = Inl (NoConfigFileFound ''No configration file found'') \<and>
      build ex_world ?l True = Inr []"
    by simp
  from a b ps e1 e2 r show ?thesis
    by (intro conjI) blast+
qed

text \<open>
  The claim C2 as stated fails: \<open>build\<close> resolves the format before it searches, so a
  Loader for \<open>app.config\<close> with no candidate file raises \<open>UnknownFileType\<close>, with and
  without \<open>silent\<close>.
\<close>

theorem unknown_type_before_search_counterexample:
  "paths (ex_loader ''app.config'' None) = [''/etc'', ''/home/u''] \<and>
   \<not> exists_path ex_world (join ''/etc'' ''app.config'') \<and>
   \<not> exists_path ex_world (join ''/home/u'' ''app.config'') \<and>
   build ex_world (ex_loader ''app.config'' None) False =
     Inl (UnknownFileType ''Unknown file type: config'') \<and>
   build ex_world (ex_loader ''app.config'' None) True =
     Inl (UnknownFileType ''Unknown file type: config'')"
  by code_simp

section \<open>Missing files\<close>

text \<open>
  Claim C9, as amended. For a file name that is not empty and does not exist,
  \<open>from_dotenv\<close> raises \<open>IOError\<close> with the message \<open>File not found\<close> when \<open>silent\<close> is
  false and returns the Config unchanged when \<open>silent\<close> is true.
\<close>

theorem dotenv_missing_file:
  assumes "fname \<noteq> []" and "\<not> exists_path w fname"
  shows "from_dotenv w c (Some fname) False = Inl (IOError ''File not found'') \<and>
         from_dotenv w c (Some fname) True = Inr c"
  using assms by (simp add: from_dotenv_def)

theorem dotenv_missing_file_witness:
  "''/etc/.env'' \<noteq> [] \<and> \<not> exists_path ex_world ''/etc/.env'' \<and>
   from_dotenv ex_world ex_config (Some ''/etc/.env'') False = Inl (IOError ''File not found'') \<and>
   from_dotenv ex_world ex_config (Some ''/etc/.env'') True = Inr ex_config"
proof -
  have a: "''/etc/.env'' \<noteq> []"
    by simp
  have b: "\<not> exists_path ex_world ''/etc/.env''"
    by code_simp
  from dotenv_missing_file [OF a b, of ex_config] a b show ?thesis
    by (intro conjI) blast+
qed

text \<open>
  The claim C9 as stated fails: the empty file name does not exist, but \<open>if filename\<close>
  is false for it, so the call goes on to the dotenv library and raises no \<open>IOError\<close>.
\<close>

theorem empty_filename_counterexample:
  "\<not> exists_path ex_world [] \<and>
   from_dotenv ex_world ex_config (Some []) False = Inr ex_config"
  by code_simp





end
